theory Spec2Isabelle
  imports Main "HOL-Library.Word"
begin

section \<open>JavaScript strings\<close>

text \<open>
  A JavaScript string is a sequence of UTF-16 code units; \<open>length\<close> counts code units.
  ASCII literals of the source are written \<open>js ''...''\<close>.
\<close>

type_synonym jsstring = "16 word list"

definition js :: "string \<Rightarrow> jsstring" where
  "js s = map of_char s"

text \<open>Truthiness of an optional string value: \<open>undefined\<close>, \<open>null\<close> and \<open>''\<close> are falsy.\<close>

fun truthy :: "jsstring option \<Rightarrow> bool" where
  "truthy None = False"
| "truthy (Some s) = (s \<noteq> [])"

text \<open>\<open>WhiteSpace\<close> and \<open>LineTerminator\<close> of ECMAScript, as \<open>trim\<close> and the regex class \<open>\s\<close> use them.\<close>

definition isWhiteSpace :: "16 word \<Rightarrow> bool" where
  "isWhiteSpace c \<longleftrightarrow>
     (0x0009 \<le> c \<and> c \<le> 0x000D) \<or> c = 0x0020 \<or> c = 0x00A0 \<or> c = 0x1680 \<or>
     (0x2000 \<le> c \<and> c \<le> 0x200A) \<or> c = 0x2028 \<or> c = 0x2029 \<or> c = 0x202F \<or>
     c = 0x205F \<or> c = 0x3000 \<or> c = 0xFEFF"

definition trim :: "jsstring \<Rightarrow> jsstring" where
  "trim s = rev (dropWhile isWhiteSpace (rev (dropWhile isWhiteSpace s)))"

fun startsWith :: "jsstring \<Rightarrow> jsstring \<Rightarrow> bool" where
  "startsWith s [] = True"
| "startsWith [] (p # ps) = False"
| "startsWith (c # cs) (p # ps) = (c = p \<and> startsWith cs ps)"

fun includesStr :: "jsstring \<Rightarrow> jsstring \<Rightarrow> bool" where
  "includesStr [] p = startsWith [] p"
| "includesStr (c # cs) p = (startsWith (c # cs) p \<or> includesStr cs p)"

text \<open>Lower-casing of the ASCII letters, to compare messages without regard to case.\<close>

definition toLowerAscii :: "jsstring \<Rightarrow> jsstring" where
  "toLowerAscii s = map (\<lambda>c. if 0x41 \<le> c \<and> c \<le> 0x5A then c + 0x20 else c) s"

section \<open>The platform\<close>

text \<open>
  Two library functions the selection depends on are defined by the host, not by the
  repository: \<open>new Date(s).getTime()\<close> (the milliseconds of a parsed date string, or NaN,
  here \<open>None\<close>) and \<open>String.prototype.localeCompare\<close> (negative, zero or positive, by the
  host's collation). The model takes them as a parameter.
\<close>

record platform =
  getTime :: "jsstring \<Rightarrow> int option"
  localeCompare :: "jsstring \<Rightarrow> jsstring \<Rightarrow> int"

text \<open>
  A reference platform for concrete runs: dates in the two UTC forms of the ECMAScript
  date-time string format (\<open>YYYY-MM-DDTHH:mm:ssZ\<close> and \<open>YYYY-MM-DDTHH:mm:ss.sssZ\<close>),
  anything else NaN; strings compared by code units.
\<close>

fun digitsVal :: "int \<Rightarrow> jsstring \<Rightarrow> int option" where
  "digitsVal acc [] = Some acc"
| "digitsVal acc (c # cs) =
     (if 0x30 \<le> c \<and> c \<le> 0x39 then digitsVal (acc * 10 + (uint c - 48)) cs else None)"

definition daysFromCivil :: "int \<Rightarrow> int \<Rightarrow> int \<Rightarrow> int" where
  "daysFromCivil y m d =
     (let y' = (if m \<le> 2 then y - 1 else y);
          era = y' div 400;
          yoe = y' - era * 400;
          mp = (m + 9) mod 12;
          doy = (153 * mp + 2) div 5 + d - 1;
          doe = yoe * 365 + yoe div 4 - yoe div 100 + doy
      in era * 146097 + doe - 719468)"

definition daysInMonth :: "int \<Rightarrow> int \<Rightarrow> int" where
  "daysInMonth y m =
     (if m = 2 then (if y mod 4 = 0 \<and> (y mod 100 \<noteq> 0 \<or> y mod 400 = 0) then 29 else 28)
      else if m = 4 \<or> m = 6 \<or> m = 9 \<or> m = 11 then 30 else 31)"

definition field :: "jsstring \<Rightarrow> nat \<Rightarrow> nat \<Rightarrow> int option" where
  "field s i n = (if i + n \<le> length s then digitsVal 0 (take n (drop i s)) else None)"

definition isoMillis :: "jsstring \<Rightarrow> int option" where
  "isoMillis s =
     (if \<not> (length s = 20 \<or> length s = 24) then None
      else if \<not> (s ! 4 = 0x2D \<and> s ! 7 = 0x2D \<and> s ! 10 = 0x54 \<and> s ! 13 = 0x3A \<and> s ! 16 = 0x3A
                \<and> last s = 0x5A \<and> (length s = 24 \<longrightarrow> s ! 19 = 0x2E)) then None
      else case (field s 0 4, field s 5 2, field s 8 2, field s 11 2, field s 14 2, field s 17 2,
                 if length s = 24 then field s 20 3 else Some 0) of
        (Some y, Some mo, Some d, Some h, Some mi, Some sec, Some ms) \<Rightarrow>
          (if 1 \<le> mo \<and> mo \<le> 12 \<and> 1 \<le> d \<and> d \<le> daysInMonth y mo
              \<and> h \<le> 23 \<and> mi \<le> 59 \<and> sec \<le> 59
           then Some ((((daysFromCivil y mo d * 24 + h) * 60 + mi) * 60 + sec) * 1000 + ms)
           else None)
      | _ \<Rightarrow> None)"

fun codeUnitCompare :: "jsstring \<Rightarrow> jsstring \<Rightarrow> int" where
  "codeUnitCompare [] [] = 0"
| "codeUnitCompare [] (d # ds) = -1"
| "codeUnitCompare (c # cs) [] = 1"
| "codeUnitCompare (c # cs) (d # ds) =
     (if c < d then -1 else if d < c then 1 else codeUnitCompare cs ds)"

definition refPlatform :: platform where
  "refPlatform = \<lparr> getTime = isoMillis, localeCompare = codeUnitCompare \<rparr>"

section \<open>Direct Line service (\<open>services/directLineService.js\<close>)\<close>

subsection \<open>Data\<close>

text \<open>
  An optional JSON field is an \<open>option\<close>: \<open>None\<close> is an absent field, which reads as
  \<open>undefined\<close>. (A \<open>null\<close> field passes and fails the same tests of the source.) Field
  names carry the record's prefix.
\<close>

record actor =
  from_role :: "jsstring option"
  from_id :: "jsstring option"
  from_name :: "jsstring option"

record attachment =
  att_contentType :: "jsstring option"
  att_url :: "jsstring option"
  att_title :: "jsstring option"

record activity =
  act_id :: "jsstring option"
  act_type :: "jsstring option"
  act_text :: "jsstring option"
  act_timestamp :: "jsstring option"
  act_from :: "actor option"
  act_attachments :: "attachment list option"
  act_attachmentLayout :: "jsstring option"

text \<open>The parsed response body: \<open>{ error: { message }, message, activities }\<close>.\<close>

record activitiesData =
  data_error_message :: "jsstring option"
  data_message :: "jsstring option"
  activities :: "activity list option"

record botMessage =
  bm_text :: jsstring
  bm_id :: "jsstring option"
  bm_timestamp :: "jsstring option"
  bm_attachments :: "attachment list"
  bm_attachmentLayout :: "jsstring option"
  bm_activity :: activity

text \<open>
  Exceptions: an \<open>Error\<close> thrown by the source with its message, and the \<open>TypeError\<close> the
  engine raises on a property read of \<open>undefined\<close> or \<open>null\<close>, with the word for the
  value and the name of the property.
\<close>

datatype js_error = Error jsstring | TypeError jsstring jsstring

fun errMessage :: "js_error \<Rightarrow> jsstring" where
  "errMessage (Error m) = m"
| "errMessage (TypeError v p) =
     js ''Cannot read properties of '' @ v @ js '' (reading '' @ [0x27] @ p @ [0x27] @ js '')''"

subsection \<open>\<open>getBotActivities\<close>\<close>

text \<open>
  What the network did with the request: the \<open>fetch\<close> promise rejected, or it resolved
  with a status and a body. The body is not JSON (the source then reads \<open>{}\<close>), the
  JSON value \<open>null\<close>, or a JSON object, of which the source reads the fields
  \<open>error.message\<close>, \<open>message\<close> and \<open>activities\<close>, taken to be strings and a list.
\<close>

datatype responseBody = NotJson | JsonNull | JsonObject activitiesData

datatype fetchOutcome = Rejected js_error | Resolved int responseBody

definition emptyData :: activitiesData where
  "emptyData = \<lparr> data_error_message = None, data_message = None, activities = None \<rparr>"

definition response_ok :: "int \<Rightarrow> bool" where
  "response_ok status \<longleftrightarrow> 200 \<le> status \<and> status \<le> 299"

fun decimalDigits :: "nat \<Rightarrow> jsstring" where
  "decimalDigits n =
     (if n < 10 then [of_nat (48 + n)] else decimalDigits (n div 10) @ [of_nat (48 + n mod 10)])"

definition numberToString :: "int \<Rightarrow> jsstring" where
  "numberToString i = (if i < 0 then 0x2D # decimalDigits (nat (- i)) else decimalDigits (nat i))"

definition statusMessage :: "int \<Rightarrow> activitiesData \<Rightarrow> jsstring" where
  "statusMessage status data =
     (let errorMessage =
            (if truthy (data_error_message data) then the (data_error_message data)
             else if truthy (data_message data) then the (data_message data)
             else js ''API error: '' @ numberToString status)
      in if status = 401 then js ''Unauthorized: Invalid Bearer Token. Please check your token.''
         else if status = 404 then js ''Conversation not found: Invalid Conversation ID.''
         else if status = 403 then js ''Forbidden: Token may not have access to this conversation.''
         else errorMessage)"

definition getBotActivities ::
  "jsstring option \<Rightarrow> jsstring option \<Rightarrow> fetchOutcome \<Rightarrow> js_error + activitiesData" where
  "getBotActivities conversationId bearerToken outcome =
     (if \<not> truthy conversationId \<or> \<not> truthy bearerToken
      then Inl (Error (js ''Conversation ID and Bearer Token are required''))
      else case outcome of
        Rejected e \<Rightarrow> Inl e
      | Resolved status body \<Rightarrow>
          (case body of
             JsonNull \<Rightarrow>
               Inl (TypeError (js ''null'')
                      (if \<not> response_ok status then js ''error'' else js ''activities''))
           | NotJson \<Rightarrow>
               if \<not> response_ok status then Inl (Error (statusMessage status emptyData))
               else Inr emptyData
           | JsonObject data \<Rightarrow>
               if \<not> response_ok status then Inl (Error (statusMessage status data))
               else Inr data))"

subsection \<open>\<open>getLatestBotMessage\<close>\<close>

definition emptyActor :: actor where
  "emptyActor = \<lparr> from_role = None, from_id = None, from_name = None \<rparr>"

definition isBot :: "actor \<Rightarrow> bool" where
  "isBot from \<longleftrightarrow>
     from_role from = Some (js ''bot'') \<or>
     from_id from = Some (js ''comm-cba1-conci-retailai7v5b1-bot'') \<or>
     (case from_id from of None \<Rightarrow> False | Some i \<Rightarrow> i \<noteq> [] \<and> includesStr i (js ''bot'')) \<or>
     from_name from = Some (js ''Concierge'')"

definition isMessage :: "activity \<Rightarrow> bool" where
  "isMessage a \<longleftrightarrow> act_type a = Some (js ''message'')"

definition hasText :: "activity \<Rightarrow> bool" where
  "hasText a \<longleftrightarrow> (case act_text a of None \<Rightarrow> False | Some t \<Rightarrow> t \<noteq> [] \<and> length (trim t) > 0)"

definition hasAttachments :: "activity \<Rightarrow> bool" where
  "hasAttachments a \<longleftrightarrow> (case act_attachments a of None \<Rightarrow> False | Some xs \<Rightarrow> length xs > 0)"

text \<open>The predicate of the \<open>filter\<close> call.\<close>

definition keepActivity :: "activity \<Rightarrow> bool" where
  "keepActivity a =
     (if \<not> isMessage a \<or> (\<not> hasText a \<and> \<not> hasAttachments a) then False
      else let from = (case act_from a of None \<Rightarrow> emptyActor | Some f \<Rightarrow> f)
           in if \<not> isBot from then False else True)"

text \<open>
  The comparator of the \<open>sort\<close> call. A NaN difference (an unparseable date) counts as
  \<open>+0\<close>, as \<open>Array.prototype.sort\<close> reads it. Only the sign of the result is used.
\<close>

definition compareActivities :: "platform \<Rightarrow> activity \<Rightarrow> activity \<Rightarrow> int" where
  "compareActivities P a b =
     (if truthy (act_timestamp a) \<and> truthy (act_timestamp b) then
        (case (getTime P (the (act_timestamp a)), getTime P (the (act_timestamp b))) of
           (Some timeA, Some timeB) \<Rightarrow> timeB - timeA
         | _ \<Rightarrow> 0)
      else if truthy (act_id a) \<and> truthy (act_id b) then
        localeCompare P (the (act_id b)) (the (act_id a))
      else 0)"

text \<open>
  \<open>Array.prototype.sort\<close> is stable; with a consistent comparator every stable sort gives
  the same result, and this insertion sort is one. With an inconsistent comparator the
  order is left to the engine, and the theorems below do not speak about that case.
\<close>

fun insertBy :: "('a \<Rightarrow> 'a \<Rightarrow> int) \<Rightarrow> 'a \<Rightarrow> 'a list \<Rightarrow> 'a list" where
  "insertBy cmp x [] = [x]"
| "insertBy cmp x (y # ys) = (if cmp x y \<le> 0 then x # y # ys else y # insertBy cmp x ys)"

fun sortBy :: "('a \<Rightarrow> 'a \<Rightarrow> int) \<Rightarrow> 'a list \<Rightarrow> 'a list" where
  "sortBy cmp [] = []"
| "sortBy cmp (x # xs) = insertBy cmp x (sortBy cmp xs)"

definition botActivitiesOf :: "platform \<Rightarrow> activity list \<Rightarrow> activity list" where
  "botActivitiesOf P log = sortBy (compareActivities P) (filter keepActivity log)"

text \<open>
  The \<open>forEach\<close> that logs every retained activity reads \<open>activity.text.substring\<close>
  without a guard: on an activity with no text it raises.
\<close>

fun logBotActivities :: "activity list \<Rightarrow> js_error + unit" where
  "logBotActivities [] = Inr ()"
| "logBotActivities (a # as) =
     (case act_text a of None \<Rightarrow> Inl (TypeError (js ''undefined'') (js ''substring''))
      | Some t \<Rightarrow> logBotActivities as)"

definition toBotMessage :: "activity \<Rightarrow> botMessage" where
  "toBotMessage latest =
     \<lparr> bm_text = (if truthy (act_text latest) then trim (the (act_text latest)) else []),
       bm_id = act_id latest,
       bm_timestamp = act_timestamp latest,
       bm_attachments = (case act_attachments latest of None \<Rightarrow> [] | Some xs \<Rightarrow> xs),
       bm_attachmentLayout = act_attachmentLayout latest,
       bm_activity = latest \<rparr>"

definition getLatestBotMessage ::
  "platform \<Rightarrow> activitiesData option \<Rightarrow> js_error + botMessage option" where
  "getLatestBotMessage P activitiesData =
     (case activitiesData of None \<Rightarrow> Inr None
      | Some d \<Rightarrow>
          (case activities d of None \<Rightarrow> Inr None
           | Some log \<Rightarrow>
               (let botActivities = botActivitiesOf P log
                in case logBotActivities botActivities of
                     Inl e \<Rightarrow> Inl e
                   | Inr _ \<Rightarrow>
                       (case botActivities of [] \<Rightarrow> Inr None
                        | latest # _ \<Rightarrow> Inr (Some (toBotMessage latest))))))"

text \<open>
  A comparator is consistent on a set when it orders it: a positive result one way is a
  negative result the other way, and "not after" is transitive. Only then does
  ECMAScript fix the sorted order.
\<close>

definition consistentOn :: "('a \<Rightarrow> 'a \<Rightarrow> int) \<Rightarrow> 'a set \<Rightarrow> bool" where
  "consistentOn cmp S \<longleftrightarrow>
     (\<forall>a\<in>S. \<forall>b\<in>S. cmp a b > 0 \<longrightarrow> cmp b a < 0) \<and>
     (\<forall>a\<in>S. \<forall>b\<in>S. \<forall>c\<in>S. cmp a b \<le> 0 \<and> cmp b c \<le> 0 \<longrightarrow> cmp a c \<le> 0)"

text \<open>The parsed time of an activity that has a (non-empty) timestamp.\<close>

definition timeOf :: "platform \<Rightarrow> activity \<Rightarrow> int option" where
  "timeOf P a = (case act_timestamp a of None \<Rightarrow> None
                 | Some s \<Rightarrow> if s = [] then None else getTime P s)"

subsection \<open>The selection as the specification words it\<close>

text \<open>
  For comparison with \<open>getLatestBotMessage\<close>: retain messages with non-empty text or
  non-empty attachments from a bot; order by descending parsed timestamp, and by
  descending id when a side has no timestamp and when the timestamps tie.
\<close>

definition spec_retained :: "activity \<Rightarrow> bool" where
  "spec_retained a \<longleftrightarrow>
     act_type a = Some (js ''message'') \<and>
     ((case act_text a of None \<Rightarrow> False | Some t \<Rightarrow> t \<noteq> []) \<or>
      (case act_attachments a of None \<Rightarrow> False | Some xs \<Rightarrow> xs \<noteq> [])) \<and>
     isBot (case act_from a of None \<Rightarrow> emptyActor | Some f \<Rightarrow> f)"

definition spec_compare :: "platform \<Rightarrow> activity \<Rightarrow> activity \<Rightarrow> int" where
  "spec_compare P a b =
     (let byId = (if truthy (act_id a) \<and> truthy (act_id b)
                  then localeCompare P (the (act_id b)) (the (act_id a)) else 0)
      in case (timeOf P a, timeOf P b) of
           (Some timeA, Some timeB) \<Rightarrow> if timeB - timeA \<noteq> 0 then timeB - timeA else byId
         | _ \<Rightarrow> byId)"

definition spec_latest :: "platform \<Rightarrow> activity list \<Rightarrow> activity option" where
  "spec_latest P log =
     (case sortBy (spec_compare P) (filter spec_retained log) of [] \<Rightarrow> None | m # _ \<Rightarrow> Some m)"

subsection \<open>Sample activity logs\<close>

definition botActor :: actor where
  "botActor = \<lparr> from_role = Some (js ''bot''), from_id = None, from_name = None \<rparr>"

definition userActor :: actor where
  "userActor = \<lparr> from_role = Some (js ''user''), from_id = Some (js ''u1''), from_name = None \<rparr>"

definition textActivity :: "string \<Rightarrow> string \<Rightarrow> actor \<Rightarrow> string \<Rightarrow> activity" where
  "textActivity i ts from t =
     \<lparr> act_id = Some (js i), act_type = Some (js ''message''), act_text = Some (js t),
       act_timestamp = Some (js ts), act_from = Some from, act_attachments = None,
       act_attachmentLayout = None \<rparr>"

text \<open>A hero card of the bot: attachments, no \<open>text\<close> field.\<close>

definition heroCardActivity :: activity where
  "heroCardActivity =
     \<lparr> act_id = Some (js ''A3''), act_type = Some (js ''message''), act_text = None,
       act_timestamp = Some (js ''2024-01-15T10:30:02Z''), act_from = Some botActor,
       act_attachments = Some [\<lparr> att_contentType = Some (js ''application/vnd.microsoft.card.hero''),
                                  att_url = None, att_title = Some (js ''Lot 12'') \<rparr>],
       act_attachmentLayout = None \<rparr>"

definition dataOf :: "activity list \<Rightarrow> activitiesData" where
  "dataOf log = \<lparr> data_error_message = None, data_message = None, activities = Some log \<rparr>"

text \<open>Two bot messages with the same timestamp.\<close>

definition tieLog :: "activity list" where
  "tieLog = [textActivity ''A1'' ''2024-01-15T10:30:00Z'' botActor ''First'',
             textActivity ''A2'' ''2024-01-15T10:30:00Z'' botActor ''Second'']"

definition sampleLog :: "activity list" where
  "sampleLog = [textActivity ''B1'' ''2024-01-15T10:30:00Z'' botActor ''Welcome'',
                textActivity ''B2'' ''2024-01-15T10:30:05Z'' userActor ''Hi'',
                textActivity ''B3'' ''2024-01-15T10:30:07Z'' botActor '' How can I help? '',
                textActivity ''B4'' ''2024-01-15T10:30:07Z'' botActor ''Second reply'']"

section \<open>Polling hook (\<open>hooks/useDirectLineBotMessages.js\<close>)\<close>

text \<open>
  The arguments of the hook. \<open>onBotMessage\<close> may be absent; when present it is a function
  of the host application, and its result says whether the call returned (\<open>None\<close>) or
  threw. The poll interval's length plays no part in what a tick does.
\<close>

record props =
  conversationId :: "jsstring option"
  bearerToken :: "jsstring option"
  onBotMessage :: "(jsstring \<Rightarrow> js_error option) option"

text \<open>
  The hook's state and refs, and what surrounds it: the interval timers the browser
  holds (handles are positive integers, hence truthy), the number of polls waiting for
  their fetch, and the calls of \<open>onBotMessage\<close> so far, each with the values of
  \<open>lastActivityIdRef\<close> and \<open>lastMessageRef\<close> at the moment of the call.
\<close>

record hook =
  isPolling :: bool
  error :: "jsstring option"
  lastMessageRef :: jsstring
  lastActivityIdRef :: jsstring
  pollingIntervalRef :: "nat option"
  isActiveRef :: bool
  scheduled :: "nat list"
  nextHandle :: nat
  inFlight :: nat
  calls :: "(jsstring \<times> jsstring \<times> jsstring) list"

definition initHook :: hook where
  "initHook = \<lparr> isPolling = False, error = None, lastMessageRef = [], lastActivityIdRef = [],
                 pollingIntervalRef = None, isActiveRef = False, scheduled = [], nextHandle = 1,
                 inFlight = 0, calls = [] \<rparr>"

definition clearInterval :: "nat \<Rightarrow> hook \<Rightarrow> hook" where
  "clearInterval h s = s\<lparr> scheduled := removeAll h (scheduled s) \<rparr>"

text \<open>\<open>pollBotMessages\<close> up to its \<open>await\<close>: the request is on its way.\<close>

definition pollBegin :: "hook \<Rightarrow> hook" where
  "pollBegin s = s\<lparr> inFlight := inFlight s + 1 \<rparr>"

definition activityIdOf :: "botMessage \<Rightarrow> jsstring" where
  "activityIdOf latestMessageData =
     (if truthy (bm_id latestMessageData) then the (bm_id latestMessageData)
      else bm_text latestMessageData)"

definition isNewMessage :: "botMessage \<Rightarrow> hook \<Rightarrow> bool" where
  "isNewMessage latestMessageData s \<longleftrightarrow>
     activityIdOf latestMessageData \<noteq> lastActivityIdRef s \<or>
     bm_text latestMessageData \<noteq> lastMessageRef s"

text \<open>The branch of \<open>pollBotMessages\<close> for a selected message; the second component is
  the exception of the callback, if it threw.\<close>

definition deliverLatest :: "props \<Rightarrow> botMessage \<Rightarrow> hook \<Rightarrow> hook \<times> js_error option" where
  "deliverLatest pr latestMessageData s =
     (let latestMessage = bm_text latestMessageData;
          latestActivityId = activityIdOf latestMessageData
      in if isNewMessage latestMessageData s then
           (let s1 = s\<lparr> lastMessageRef := latestMessage, lastActivityIdRef := latestActivityId \<rparr>
            in case onBotMessage pr of
                 None \<Rightarrow> (s1, None)
               | Some callback \<Rightarrow>
                   (s1\<lparr> calls := calls s1 @ [(latestMessage, lastActivityIdRef s1, lastMessageRef s1)] \<rparr>,
                    callback latestMessage))
         else (s, None))"

text \<open>\<open>pollBotMessages\<close> from its \<open>await\<close> on, with the \<open>catch\<close>.\<close>

definition pollSettle :: "platform \<Rightarrow> props \<Rightarrow> fetchOutcome \<Rightarrow> hook \<Rightarrow> hook" where
  "pollSettle P pr outcome s =
     (let s0 = s\<lparr> inFlight := inFlight s - 1 \<rparr>
      in case getBotActivities (conversationId pr) (bearerToken pr) outcome of
           Inl err \<Rightarrow> s0\<lparr> error := Some (errMessage err) \<rparr>
         | Inr activitiesData \<Rightarrow>
             (case getLatestBotMessage P (Some activitiesData) of
                Inl err \<Rightarrow> s0\<lparr> error := Some (errMessage err) \<rparr>
              | Inr None \<Rightarrow> s0
              | Inr (Some latestMessageData) \<Rightarrow>
                  (case deliverLatest pr latestMessageData s0 of
                     (s1, None) \<Rightarrow> s1
                   | (s1, Some err) \<Rightarrow> s1\<lparr> error := Some (errMessage err) \<rparr>)))"

definition startPolling :: "props \<Rightarrow> hook \<Rightarrow> hook" where
  "startPolling pr s =
     (if \<not> truthy (conversationId pr) \<or> \<not> truthy (bearerToken pr) then s
      else if isActiveRef s then s
      else let s1 = s\<lparr> isActiveRef := True, isPolling := True, error := None \<rparr>;
               s2 = pollBegin s1;
               h = nextHandle s2
           in s2\<lparr> scheduled := scheduled s2 @ [h], nextHandle := h + 1,
                   pollingIntervalRef := Some h \<rparr>)"

definition stopPolling :: "hook \<Rightarrow> hook" where
  "stopPolling s =
     (let s1 = (case pollingIntervalRef s of None \<Rightarrow> s
                | Some h \<Rightarrow> (clearInterval h s)\<lparr> pollingIntervalRef := None \<rparr>)
      in s1\<lparr> isActiveRef := False, isPolling := False \<rparr>)"

text \<open>
  What can happen to a hook instance: its two operations are called, a scheduled
  interval fires and starts a poll, or the fetch of a waiting poll settles. An event
  that cannot happen in the state (no interval scheduled, no poll waiting) gives \<open>None\<close>.
\<close>

datatype hookEvent = StartPolling | StopPolling | IntervalFires | FetchSettles fetchOutcome

fun hookStep :: "platform \<Rightarrow> props \<Rightarrow> hookEvent \<Rightarrow> hook \<Rightarrow> hook option" where
  "hookStep P pr StartPolling s = Some (startPolling pr s)"
| "hookStep P pr StopPolling s = Some (stopPolling s)"
| "hookStep P pr IntervalFires s = (if scheduled s = [] then None else Some (pollBegin s))"
| "hookStep P pr (FetchSettles outcome) s =
     (if inFlight s = 0 then None else Some (pollSettle P pr outcome s))"

fun hookRun :: "platform \<Rightarrow> props \<Rightarrow> hookEvent list \<Rightarrow> hook \<Rightarrow> hook option" where
  "hookRun P pr [] s = Some s"
| "hookRun P pr (e # es) s =
     (case hookStep P pr e s of None \<Rightarrow> None | Some s' \<Rightarrow> hookRun P pr es s')"

text \<open>What holds of every state a hook instance reaches.\<close>

definition wellFormed :: "hook \<Rightarrow> bool" where
  "wellFormed s \<longleftrightarrow>
     isActiveRef s = (pollingIntervalRef s \<noteq> None) \<and> isPolling s = isActiveRef s \<and>
     scheduled s = (case pollingIntervalRef s of None \<Rightarrow> [] | Some h \<Rightarrow> [h])"

definition fetchFails :: "fetchOutcome \<Rightarrow> bool" where
  "fetchFails outcome = (case outcome of Rejected e \<Rightarrow> True
                         | Resolved status body \<Rightarrow> \<not> response_ok status)"

definition sampleProps :: props where
  "sampleProps = \<lparr> conversationId = Some (js ''conv-1''), bearerToken = Some (js ''secret''),
                    onBotMessage = Some (\<lambda>text. None) \<rparr>"

text \<open>A stopped hook: nothing scheduled, nothing to clear.\<close>

definition stopped :: "hook \<Rightarrow> bool" where
  "stopped s \<longleftrightarrow> scheduled s = [] \<and> pollingIntervalRef s = None \<and> \<not> isActiveRef s"


section \<open>DOM stabilisation detector (\<open>useChatbotMessages\<close> in \<open>hooks/useTypingDetection.js\<close>)\<close>

subsection \<open>Cleaning the text\<close>

text \<open>
  The regular expressions that strip emoji carry the \<open>u\<close> flag: they match code points,
  so a high surrogate followed by a low surrogate is one character. Each \<open>replace\<close> is
  one pass over the string.
\<close>

definition codePoint :: "16 word \<Rightarrow> 16 word \<Rightarrow> int" where
  "codePoint hi lo = (uint hi - 0xD800) * 0x400 + (uint lo - 0xDC00) + 0x10000"

fun removeRange :: "int \<Rightarrow> int \<Rightarrow> jsstring \<Rightarrow> jsstring" where
  "removeRange lo hi [] = []"
| "removeRange lo hi [c] = (if lo \<le> uint c \<and> uint c \<le> hi then [] else [c])"
| "removeRange lo hi (c # d # cs) =
     (if 0xD800 \<le> c \<and> c \<le> 0xDBFF \<and> 0xDC00 \<le> d \<and> d \<le> 0xDFFF
      then (if lo \<le> codePoint c d \<and> codePoint c d \<le> hi
            then removeRange lo hi cs
            else c # d # removeRange lo hi cs)
      else (if lo \<le> uint c \<and> uint c \<le> hi
            then removeRange lo hi (d # cs)
            else c # removeRange lo hi (d # cs)))"

text \<open>\<open>replace(/\s+/g, ' ')\<close>: every run of white space becomes one space.\<close>

fun collapseWhitespace :: "jsstring \<Rightarrow> jsstring" where
  "collapseWhitespace [] = []"
| "collapseWhitespace [c] = (if isWhiteSpace c then [0x0020] else [c])"
| "collapseWhitespace (c # d # cs) =
     (if isWhiteSpace c
      then (if isWhiteSpace d then collapseWhitespace (d # cs)
            else 0x0020 # collapseWhitespace (d # cs))
      else c # collapseWhitespace (d # cs))"

definition cleanText :: "jsstring \<Rightarrow> jsstring" where
  "cleanText currentText =
     trim (collapseWhitespace
       (removeRange 0x1FA00 0x1FAFF
         (removeRange 0x2700 0x27BF
           (removeRange 0x2600 0x26FF
             (removeRange 0x1F300 0x1F9FF currentText)))))"

subsection \<open>State\<close>

text \<open>
  The variables of the effect's closure, and what surrounds them: the timeouts the
  browser holds (handle and due time), the next handle, the clock, and the arguments of
  the calls of \<open>onBotMessage\<close> so far.
\<close>

record detector =
  lastProcessedText :: jsstring
  lastProcessedTime :: int
  messageStabilizationTimeout :: "nat option"
  lastSeenText :: jsstring
  stabilizationCount :: nat
  timers :: "(nat \<times> int) list"
  nextTimer :: nat
  clock :: int
  delivered :: "jsstring list"

definition initDetector :: detector where
  "initDetector = \<lparr> lastProcessedText = [], lastProcessedTime = 0,
                     messageStabilizationTimeout = None, lastSeenText = [],
                     stabilizationCount = 0, timers = [], nextTimer = 1, clock = 0,
                     delivered = [] \<rparr>"

definition STABILIZATION_DELAY :: int where
  "STABILIZATION_DELAY = 800"

definition MIN_STABILIZATION_COUNT :: nat where
  "MIN_STABILIZATION_COUNT = 1"

text \<open>
  What one check reads from the page: whether a typing indicator is visible
  (\<open>isBotTyping()\<close>) and the texts of the messages \<open>extractBotMessages()\<close> returns, in
  document order.
\<close>

record page =
  isBotTyping :: bool
  botMessages :: "jsstring list"

subsection \<open>\<open>extractBotMessages\<close>\<close>

text \<open>
  The elements the selectors and the scan of the \<open>div\<close>s collect, in the order they are
  collected, each with what the source reads of it: its \<open>textContent\<close> (\<open>None\<close> when
  there is none) and whether one of the tests for a user message holds (a class of the
  element or of an ancestor with \<open>user\<close>, \<open>sender\<close> or \<open>my-message\<close>, or an input tag).
  Which elements a selector matches is the page's business. When the widget is not in
  the page the list is empty.
\<close>

record domElement =
  el_textContent :: "jsstring option"
  el_userMarked :: bool

text \<open>The loop over \<open>messageElements\<close> that keeps the first element of each text.\<close>

fun uniqueByText :: "jsstring list \<Rightarrow> domElement list \<Rightarrow> domElement list" where
  "uniqueByText seenTexts [] = []"
| "uniqueByText seenTexts (el # els) =
     (case el_textContent el of
        None \<Rightarrow> uniqueByText seenTexts els
      | Some raw \<Rightarrow>
          (let text = trim raw
           in if text \<noteq> [] \<and> text \<notin> set seenTexts
              then el # uniqueByText (text # seenTexts) els
              else uniqueByText seenTexts els))"

text \<open>
  The function of the \<open>map\<close> call; \<open>toLowerCase\<close> is the host's. \<open>isBot\<close> of the source
  ends in \<open>|| true\<close>, so it never rejects.
\<close>

definition botMessageText :: "(jsstring \<Rightarrow> jsstring) \<Rightarrow> domElement \<Rightarrow> jsstring option" where
  "botMessageText toLowerCase el =
     (case el_textContent el of
        None \<Rightarrow> None
      | Some raw \<Rightarrow>
          (let text = trim raw
           in if text = [] \<or> length text < 5 then None
              else if el_userMarked el then None
              else if length text < 10 \<or>
                      toLowerCase text = js ''typing...'' \<or>
                      toLowerCase text = js ''loading...'' \<or>
                      includesStr (toLowerCase text) (js ''click to send'')
                   then None
              else Some text))"

fun keepSome :: "'a option list \<Rightarrow> 'a list" where
  "keepSome [] = []"
| "keepSome (None # xs) = keepSome xs"
| "keepSome (Some x # xs) = x # keepSome xs"

definition extractBotMessages :: "(jsstring \<Rightarrow> jsstring) \<Rightarrow> domElement list \<Rightarrow> jsstring list" where
  "extractBotMessages toLowerCase messageElements =
     keepSome (map (botMessageText toLowerCase) (uniqueByText [] messageElements))"

text \<open>What a check reads from a page with these elements.\<close>

definition pageOf :: "(jsstring \<Rightarrow> jsstring) \<Rightarrow> bool \<Rightarrow> domElement list \<Rightarrow> page" where
  "pageOf toLowerCase typing messageElements =
     \<lparr> isBotTyping = typing, botMessages = extractBotMessages toLowerCase messageElements \<rparr>"

text \<open>A page whose only collected element is one bubble of the bot with the given text.\<close>

definition bubble :: "jsstring \<Rightarrow> domElement list" where
  "bubble t = [\<lparr> el_textContent = Some t, el_userMarked = False \<rparr>]"

definition clearTimeout :: "nat \<Rightarrow> detector \<Rightarrow> detector" where
  "clearTimeout h s = s\<lparr> timers := filter (\<lambda>t. fst t \<noteq> h) (timers s) \<rparr>"

definition setStabilizationTimeout :: "int \<Rightarrow> detector \<Rightarrow> detector" where
  "setStabilizationTimeout now s =
     s\<lparr> timers := timers s @ [(nextTimer s, now + STABILIZATION_DELAY)],
        messageStabilizationTimeout := Some (nextTimer s),
        nextTimer := nextTimer s + 1 \<rparr>"

text \<open>
  \<open>checkAndProcessStableMessage(immediate)\<close>; \<open>hasCallback\<close> says whether \<open>onBotMessage\<close>
  is present, \<open>now\<close> is \<open>Date.now()\<close>.
\<close>

definition checkAndProcessStableMessage ::
  "bool \<Rightarrow> bool \<Rightarrow> page \<Rightarrow> int \<Rightarrow> detector \<Rightarrow> detector" where
  "checkAndProcessStableMessage hasCallback immediate pg now s =
     (if isBotTyping pg \<and> \<not> immediate then s
      else if botMessages pg = [] then s
      else
        let currentText = last (botMessages pg) in
        if currentText \<noteq> lastSeenText s \<and> length currentText > length (lastSeenText s) then
          (let s1 = s\<lparr> lastSeenText := currentText, stabilizationCount := 0 \<rparr>;
               s2 = (case messageStabilizationTimeout s1 of None \<Rightarrow> s1
                     | Some h \<Rightarrow> clearTimeout h s1)
           in setStabilizationTimeout now s2)
        else if currentText = lastSeenText s \<and> length currentText > 5 then
          (let s1 = s\<lparr> stabilizationCount := stabilizationCount s + 1 \<rparr> in
           if immediate \<or> stabilizationCount s1 \<ge> MIN_STABILIZATION_COUNT then
             (let isNew = (currentText \<noteq> lastProcessedText s1 \<or>
                           now - lastProcessedTime s1 > 5000);
                  s2 = (if isNew \<and> hasCallback \<and> currentText \<noteq> [] then
                          (let clean = cleanText currentText in
                           if clean \<noteq> [] \<and> length clean > 5 then
                             s1\<lparr> lastProcessedText := currentText, lastProcessedTime := now,
                                 stabilizationCount := 0,
                                 delivered := delivered s1 @ [clean] \<rparr>
                           else s1)
                        else s1)
              in s2\<lparr> stabilizationCount := 0 \<rparr>)
           else s1)
        else s)"

subsection \<open>Events in virtual time\<close>

text \<open>
  A check runs when the mutation observer or the 500 ms interval calls it (not
  immediate), or when the stabilisation timeout runs (immediate). Timeouts are taken to
  run when due: an observation at a time when a timeout is already due cannot happen
  before that timeout has run. Time does not go backwards. An event that cannot happen
  gives \<open>None\<close>.
\<close>

datatype pageEvent = Observe int page | TimeoutFires int page

fun detectorStep :: "bool \<Rightarrow> pageEvent \<Rightarrow> detector \<Rightarrow> detector option" where
  "detectorStep hasCallback (Observe now pg) s =
     (if now < clock s \<or> (\<exists>t\<in>set (timers s). snd t \<le> now) then None
      else Some (checkAndProcessStableMessage hasCallback False pg now (s\<lparr> clock := now \<rparr>)))"
| "detectorStep hasCallback (TimeoutFires now pg) s =
     (case timers s of
        [] \<Rightarrow> None
      | t # ts \<Rightarrow>
          if now < clock s \<or> now < snd t then None
          else Some (checkAndProcessStableMessage hasCallback True pg now
                       (s\<lparr> timers := ts, clock := now \<rparr>)))"

fun detectorRun :: "bool \<Rightarrow> pageEvent list \<Rightarrow> detector \<Rightarrow> detector option" where
  "detectorRun hasCallback [] s = Some s"
| "detectorRun hasCallback (e # es) s =
     (case detectorStep hasCallback e s of None \<Rightarrow> None
      | Some s' \<Rightarrow> detectorRun hasCallback es s')"

definition quietPage :: "jsstring \<Rightarrow> page" where
  "quietPage t = \<lparr> isBotTyping = False, botMessages = [t] \<rparr>"

text \<open>\<open>Great choice! \<close>, the emoji U+1F389 as its surrogate pair, \<open> Let's proceed\<close>.\<close>

definition greatChoice :: jsstring where
  "greatChoice = js ''Great choice! '' @ [0xD83C, 0xDF89] @ js '' Let'' @ [0x27] @ js ''s proceed''"

definition greatChoiceClean :: jsstring where
  "greatChoiceClean = js ''Great choice! Let'' @ [0x27] @ js ''s proceed''"





text \<open>
  The page shows \<open>Hel\<close>, \<open>Hello\<close>, \<open>Hello wor\<close>, \<open>Hello world\<close> at 0, 100, 200 and
  300 ms and the observer runs a check each time; the 500 ms interval ticks from 500 to
  6000; the timeout armed at 300 runs at 1100.
\<close>

definition helloWorld :: jsstring where
  "helloWorld = js ''Hello world''"

definition tick :: "int \<Rightarrow> pageEvent" where
  "tick now = Observe now (pageOf toLowerAscii False (bubble helloWorld))"


section \<open>Properties of the selection\<close>

subsection \<open>The sort and the comparator\<close>

lemma set_insertBy: "set (insertBy cmp x ys) = insert x (set ys)"
  by (induction ys) auto

lemma set_sortBy: "set (sortBy cmp xs) = set xs"
  by (induction xs) (auto simp: set_insertBy)

lemma sortBy_Nil_iff: "sortBy cmp xs = [] \<longleftrightarrow> xs = []"
  by (metis set_sortBy set_empty)

lemma logBotActivities_ok:
  "logBotActivities xs = Inr () \<longleftrightarrow> (\<forall>a\<in>set xs. act_text a \<noteq> None)"
  by (induction xs) (auto split: option.splits)

lemma logBotActivities_raises:
  "\<exists>a\<in>set xs. act_text a = None \<Longrightarrow> logBotActivities xs = Inl (TypeError (js ''undefined'') (js ''substring''))"
  by (induction xs) (auto split: option.splits)

lemma consistentOn_subset: "consistentOn cmp T \<Longrightarrow> S \<subseteq> T \<Longrightarrow> consistentOn cmp S"
  unfolding consistentOn_def by (meson subsetD)

lemma consistentOn_anti:
  "consistentOn cmp S \<Longrightarrow> a \<in> S \<Longrightarrow> b \<in> S \<Longrightarrow> cmp a b > 0 \<Longrightarrow> cmp b a < 0"
  unfolding consistentOn_def by blast

lemma consistentOn_trans:
  "consistentOn cmp S \<Longrightarrow> a \<in> S \<Longrightarrow> b \<in> S \<Longrightarrow> c \<in> S \<Longrightarrow>
     cmp a b \<le> 0 \<Longrightarrow> cmp b c \<le> 0 \<Longrightarrow> cmp a c \<le> 0"
  unfolding consistentOn_def by blast

lemma sortBy_first:
  assumes "consistentOn cmp (set xs)" and "xs \<noteq> []"
  shows "\<exists>pre m post rest. xs = pre @ m # post \<and> sortBy cmp xs = m # rest \<and>
           (\<forall>b\<in>set pre. cmp b m > 0) \<and> (\<forall>b\<in>set post. cmp m b \<le> 0)"
  using assms
proof (induction xs)
  case Nil
  then show ?case by simp
next
  case (Cons x xs)
  show ?case
  proof (cases "xs = []")
    case True
    then have "x # xs = [] @ x # [] \<and> sortBy cmp (x # xs) = x # [] \<and>
           (\<forall>b\<in>set []. cmp b x > 0) \<and> (\<forall>b\<in>set []. cmp x b \<le> 0)" by simp
    then show ?thesis
      by (rule_tac x = "[]" in exI, rule_tac x = x in exI, rule_tac x = "[]" in exI,
          rule_tac x = "[]" in exI)
  next
    case False
    have sub: "consistentOn cmp (set xs)"
      by (rule consistentOn_subset [OF Cons.prems(1)]) auto
    from Cons.IH [OF sub False] obtain pre m post rest where
      dec: "xs = pre @ m # post" and srt: "sortBy cmp xs = m # rest" and
      before: "\<forall>b\<in>set pre. cmp b m > 0" and after: "\<forall>b\<in>set post. cmp m b \<le> 0"
      by blast
    have anti: "\<And>a b. a \<in> set (x # xs) \<Longrightarrow> b \<in> set (x # xs) \<Longrightarrow> cmp a b > 0 \<Longrightarrow> cmp b a < 0"
      and trans: "\<And>a b c. a \<in> set (x # xs) \<Longrightarrow> b \<in> set (x # xs) \<Longrightarrow> c \<in> set (x # xs)
                    \<Longrightarrow> cmp a b \<le> 0 \<Longrightarrow> cmp b c \<le> 0 \<Longrightarrow> cmp a c \<le> 0"
      using consistentOn_anti [OF Cons.prems(1)] consistentOn_trans [OF Cons.prems(1)] by blast+
    have m_in: "m \<in> set (x # xs)" using dec by simp
    show ?thesis
    proof (cases "cmp x m \<le> 0")
      case True
      have "cmp x b \<le> 0" if "b \<in> set xs" for b
      proof -
        have b_in: "b \<in> set (x # xs)" using that by simp
        from that dec have "b \<in> set pre \<or> b = m \<or> b \<in> set post" by auto
        then have "cmp m b \<le> 0"
        proof (elim disjE)
          assume "b \<in> set pre"
          then have "cmp b m > 0" using before by blast
          then have "cmp m b < 0" using anti [OF b_in m_in] by blast
          then show ?thesis by simp
        next
          assume "b = m"
          have "cmp x m \<le> 0" by (rule True)
          show ?thesis
          proof (rule ccontr)
            assume "\<not> cmp m b \<le> 0"
            then have "cmp m m > 0" using \<open>b = m\<close> by simp
            then have "cmp m m < 0" using anti [OF m_in m_in] by blast
            with \<open>cmp m m > 0\<close> show False by simp
          qed
        next
          assume "b \<in> set post"
          then show ?thesis using after by blast
        qed
        then show ?thesis using trans [OF _ m_in b_in True] by simp
      qed
      then have "\<forall>b\<in>set xs. cmp x b \<le> 0" by blast
      moreover have "sortBy cmp (x # xs) = x # m # rest" using srt True by simp
      ultimately have "x # xs = [] @ x # xs \<and> sortBy cmp (x # xs) = x # (m # rest) \<and>
           (\<forall>b\<in>set []. cmp b x > 0) \<and> (\<forall>b\<in>set xs. cmp x b \<le> 0)" by simp
      then show ?thesis
        by (rule_tac x = "[]" in exI, rule_tac x = x in exI, rule_tac x = xs in exI,
            rule_tac x = "m # rest" in exI)
    next
      case False
      then have "cmp x m > 0" by simp
      moreover have "sortBy cmp (x # xs) = m # insertBy cmp x rest" using srt False by simp
      ultimately have "x # xs = (x # pre) @ m # post \<and> sortBy cmp (x # xs) = m # insertBy cmp x rest \<and>
           (\<forall>b\<in>set (x # pre). cmp b m > 0) \<and> (\<forall>b\<in>set post. cmp m b \<le> 0)"
        using dec before after by simp
      then show ?thesis
        by (rule_tac x = "x # pre" in exI, rule_tac x = m in exI, rule_tac x = post in exI,
            rule_tac x = "insertBy cmp x rest" in exI)
    qed
  qed
qed

lemma compareActivities_timed:
  "timeOf P a = Some ta \<Longrightarrow> timeOf P b = Some tb \<Longrightarrow> compareActivities P a b = tb - ta"
  by (auto simp: timeOf_def compareActivities_def split: option.splits if_splits)

lemma consistentOn_timed:
  assumes "\<forall>a\<in>S. timeOf P a \<noteq> None"
  shows "consistentOn (compareActivities P) S"
proof -
  have eq: "compareActivities P a b = the (timeOf P b) - the (timeOf P a)"
    if "a \<in> S" "b \<in> S" for a b
    using that assms compareActivities_timed [of P a _ b] by fastforce
  show ?thesis
    unfolding consistentOn_def by (auto simp: eq)
qed

lemma getLatestBotMessage_unfold:
  assumes "activities d = Some log"
  shows "getLatestBotMessage P (Some d) =
           (case logBotActivities (botActivitiesOf P log) of
              Inl e \<Rightarrow> Inl e
            | Inr u \<Rightarrow> (case botActivitiesOf P log of [] \<Rightarrow> Inr None
                        | latest # rest \<Rightarrow> Inr (Some (toBotMessage latest))))"
  using assms by (simp add: getLatestBotMessage_def Let_def)

text \<open>Definitions to unfold when a sample is evaluated.\<close>

lemmas sample_defs = sampleLog_def tieLog_def textActivity_def heroCardActivity_def
  botActor_def userActor_def dataOf_def

lemmas keep_defs = keepActivity_def isMessage_def hasText_def hasAttachments_def isBot_def
  emptyActor_def js_def trim_def isWhiteSpace_def

lemmas time_defs = timeOf_def refPlatform_def isoMillis_def field_def daysInMonth_def
  daysFromCivil_def

subsection \<open>Claims about the service\<close>

text \<open>
  Claim C1, as the code has it. Take a log in which every retained activity has a
  \<open>text\<close> field and on whose retained activities the comparator is consistent (it is
  whenever all of them carry a timestamp that parses, see \<open>consistentOn_timed\<close>). Retained
  means: type \<open>message\<close>, text non-empty after trimming or attachments non-empty, and
  a bot as author. If nothing is retained \<open>getLatestBotMessage\<close> returns null. Otherwise
  it returns the message of a retained activity \<open>m\<close> that no retained activity beats:
  every retained activity earlier in the log compares strictly after \<open>m\<close>, and \<open>m\<close>
  compares before or equal to every later one. The comparator is the difference of the
  parsed times when both sides have a timestamp, so equal times compare equal and the
  earlier activity of the log wins a tie; ids are compared only when a side has no
  timestamp.
\<close>

theorem getLatestBotMessage_selects:
  assumes acts: "activities d = Some log"
      and texts: "\<forall>a\<in>set (filter keepActivity log). act_text a \<noteq> None"
      and cons: "consistentOn (compareActivities P) (set (filter keepActivity log))"
  shows "(filter keepActivity log = [] \<longrightarrow> getLatestBotMessage P (Some d) = Inr None) \<and>
         (filter keepActivity log \<noteq> [] \<longrightarrow>
            (\<exists>pre m post. filter keepActivity log = pre @ m # post \<and>
               getLatestBotMessage P (Some d) = Inr (Some (toBotMessage m)) \<and>
               (\<forall>b\<in>set pre. compareActivities P b m > 0) \<and>
               (\<forall>b\<in>set post. compareActivities P m b \<le> 0)))"
proof -
  let ?kept = "filter keepActivity log"
  have logged: "logBotActivities (botActivitiesOf P log) = Inr ()"
    using texts by (simp add: logBotActivities_ok botActivitiesOf_def set_sortBy)
  have empty: "getLatestBotMessage P (Some d) = Inr None" if "?kept = []"
    using that logged by (simp add: getLatestBotMessage_unfold [OF acts] botActivitiesOf_def)
  have nonempty: "\<exists>pre m post. ?kept = pre @ m # post \<and>
               getLatestBotMessage P (Some d) = Inr (Some (toBotMessage m)) \<and>
               (\<forall>b\<in>set pre. compareActivities P b m > 0) \<and>
               (\<forall>b\<in>set post. compareActivities P m b \<le> 0)" if ne: "?kept \<noteq> []"
  proof -
    from sortBy_first [OF cons ne] obtain pre m post rest where
      dec: "?kept = pre @ m # post" and
      srt: "sortBy (compareActivities P) ?kept = m # rest" and
      ord: "\<forall>b\<in>set pre. compareActivities P b m > 0"
           "\<forall>b\<in>set post. compareActivities P m b \<le> 0"
      by blast
    have "getLatestBotMessage P (Some d) = Inr (Some (toBotMessage m))"
      using logged srt by (simp add: getLatestBotMessage_unfold [OF acts] botActivitiesOf_def)
    with dec ord show ?thesis by blast
  qed
  from empty nonempty show ?thesis by blast
qed

theorem getLatestBotMessage_selects_witness:
  "activities (dataOf sampleLog) = Some sampleLog \<and>
   list_all (\<lambda>a. act_text a \<noteq> None) (filter keepActivity sampleLog) \<and>
   consistentOn (compareActivities refPlatform) (set (filter keepActivity sampleLog)) \<and>
   filter keepActivity sampleLog = [sampleLog ! 0, sampleLog ! 2, sampleLog ! 3] \<and>
   getLatestBotMessage refPlatform (Some (dataOf sampleLog)) =
     Inr (Some (toBotMessage (sampleLog ! 2))) \<and>
   (\<exists>pre m post. filter keepActivity sampleLog = pre @ m # post \<and>
      getLatestBotMessage refPlatform (Some (dataOf sampleLog)) = Inr (Some (toBotMessage m)) \<and>
      (\<forall>b\<in>set pre. compareActivities refPlatform b m > 0) \<and>
      (\<forall>b\<in>set post. compareActivities refPlatform m b \<le> 0))"
proof -
  have acts: "activities (dataOf sampleLog) = Some sampleLog" by (simp add: dataOf_def)
  have kept: "filter keepActivity sampleLog = [sampleLog ! 0, sampleLog ! 2, sampleLog ! 3]"
    by (simp add: sample_defs keep_defs)
  have texts: "\<forall>a\<in>set (filter keepActivity sampleLog). act_text a \<noteq> None"
    unfolding kept by (simp add: sample_defs)
  have "\<forall>a\<in>set (filter keepActivity sampleLog). timeOf refPlatform a \<noteq> None"
    unfolding kept by (simp add: sample_defs time_defs js_def)
  then have cons: "consistentOn (compareActivities refPlatform) (set (filter keepActivity sampleLog))"
    by (rule consistentOn_timed)
  have t0: "timeOf refPlatform (sampleLog ! 0) = Some 1705314600000"
   and t2: "timeOf refPlatform (sampleLog ! 2) = Some 1705314607000"
   and t3: "timeOf refPlatform (sampleLog ! 3) = Some 1705314607000"
    by (simp_all add: sample_defs time_defs js_def)
  have srt: "sortBy (compareActivities refPlatform) [sampleLog ! 0, sampleLog ! 2, sampleLog ! 3] =
               [sampleLog ! 2, sampleLog ! 3, sampleLog ! 0]"
    by (simp add: compareActivities_timed [OF t0 t2] compareActivities_timed [OF t0 t3]
          compareActivities_timed [OF t2 t3])
  have bots: "botActivitiesOf refPlatform sampleLog = [sampleLog ! 2, sampleLog ! 3, sampleLog ! 0]"
    unfolding botActivitiesOf_def kept by (rule srt)
  have logged: "logBotActivities (botActivitiesOf refPlatform sampleLog) = Inr ()"
    using texts by (simp only: logBotActivities_ok botActivitiesOf_def set_sortBy)
  have res: "getLatestBotMessage refPlatform (Some (dataOf sampleLog)) =
     Inr (Some (toBotMessage (sampleLog ! 2)))"
    unfolding getLatestBotMessage_unfold [OF acts] logged by (simp add: bots)
  have ne: "filter keepActivity sampleLog \<noteq> []" unfolding kept by simp
  have sel: "\<exists>pre m post. filter keepActivity sampleLog = pre @ m # post \<and>
      getLatestBotMessage refPlatform (Some (dataOf sampleLog)) = Inr (Some (toBotMessage m)) \<and>
      (\<forall>b\<in>set pre. compareActivities refPlatform b m > 0) \<and>
      (\<forall>b\<in>set post. compareActivities refPlatform m b \<le> 0)"
    using getLatestBotMessage_selects [OF acts texts cons] ne by blast
  have all: "list_all (\<lambda>a. act_text a \<noteq> None) (filter keepActivity sampleLog)"
    using texts by (simp add: list_all_iff)
  show ?thesis
    by (intro conjI acts all cons kept res sel)
qed

text \<open>
  Claim C1 as stated fails on a timestamp tie: of two bot messages with the same
  timestamp and the ids \<open>A1\<close>, \<open>A2\<close>, the code selects the first of the log (\<open>A1\<close>),
  the descending id order of the specification selects \<open>A2\<close>.
\<close>

theorem getLatestBotMessage_tie_counterexample:
  "getLatestBotMessage refPlatform (Some (dataOf tieLog)) \<noteq>
     Inr (map_option toBotMessage (spec_latest refPlatform tieLog))"
  by code_simp

text \<open>
  Claim C9 does not hold of the code: on a log whose only bot message is a hero card
  without a \<open>text\<close> field, \<open>getLatestBotMessage\<close> raises a TypeError (from the logging
  of the retained activities) instead of returning a message with empty text.
\<close>

theorem getLatestBotMessage_attachment_only_raises:
  "getLatestBotMessage refPlatform (Some (dataOf [heroCardActivity])) =
     Inl (TypeError (js ''undefined'') (js ''substring''))"
  by code_simp

text \<open>
  Claim C5, as the code has it. With both credentials present, a response with a
  non-success status fails with an \<open>Error\<close> whose message is, for 401, 404 and 403, a
  fixed sentence that begins with a capital letter (\<open>Unauthorized\<close>, \<open>Conversation not
  found\<close>, \<open>Forbidden\<close>) and, for any other status, the body's \<open>error.message\<close> if
  truthy, else the body's \<open>message\<close> if truthy, else \<open>API error: \<close> and the status. The
  words of the claim occur in the three sentences once letter case is ignored.
\<close>

theorem getBotActivities_status_message:
  assumes "truthy cid" and "truthy tok" and "\<not> response_ok status" and "body \<noteq> JsonNull"
  shows "getBotActivities cid tok (Resolved status body) =
           Inl (Error
             (if status = 401 then js ''Unauthorized: Invalid Bearer Token. Please check your token.''
              else if status = 404 then js ''Conversation not found: Invalid Conversation ID.''
              else if status = 403 then js ''Forbidden: Token may not have access to this conversation.''
              else case body of
                     JsonObject d \<Rightarrow>
                       (case data_error_message d of
                          Some m \<Rightarrow> if m \<noteq> [] then m
                                    else (case data_message d of
                                            Some m' \<Rightarrow> if m' \<noteq> [] then m'
                                                       else js ''API error: '' @ numberToString status
                                          | None \<Rightarrow> js ''API error: '' @ numberToString status)
                        | None \<Rightarrow>
                            (case data_message d of
                               Some m' \<Rightarrow> if m' \<noteq> [] then m'
                                          else js ''API error: '' @ numberToString status
                             | None \<Rightarrow> js ''API error: '' @ numberToString status))
                   | _ \<Rightarrow> js ''API error: '' @ numberToString status)) \<and>
         includesStr (toLowerAscii (js ''Unauthorized: Invalid Bearer Token. Please check your token.''))
                     (js ''unauthorized'') \<and>
         includesStr (toLowerAscii (js ''Forbidden: Token may not have access to this conversation.''))
                     (js ''forbidden'') \<and>
         includesStr (toLowerAscii (js ''Conversation not found: Invalid Conversation ID.''))
                     (js ''conversation not found'')"
proof -
  have low: "includesStr (toLowerAscii (js ''Unauthorized: Invalid Bearer Token. Please check your token.''))
                     (js ''unauthorized'')"
       "includesStr (toLowerAscii (js ''Forbidden: Token may not have access to this conversation.''))
                     (js ''forbidden'')"
       "includesStr (toLowerAscii (js ''Conversation not found: Invalid Conversation ID.''))
                     (js ''conversation not found'')"
    by (simp_all add: js_def toLowerAscii_def)
  have "getBotActivities cid tok (Resolved status body) =
          Inl (Error (statusMessage status (case body of JsonObject d \<Rightarrow> d | _ \<Rightarrow> emptyData)))"
    using assms by (cases body) (simp_all add: getBotActivities_def)
  then show ?thesis using low assms(4)
    by (cases body) (simp_all add: statusMessage_def emptyData_def Let_def split: option.splits)
qed

theorem getBotActivities_status_message_witness:
  "truthy (Some (js ''conv-1'')) \<and> truthy (Some (js ''secret'')) \<and> \<not> response_ok 500 \<and>
   getBotActivities (Some (js ''conv-1'')) (Some (js ''secret'')) (Resolved 500 NotJson) =
     Inl (Error (js ''API error: 500'')) \<and>
   getBotActivities (Some (js ''conv-1'')) (Some (js ''secret'')) (Resolved 403 NotJson) =
     Inl (Error (js ''Forbidden: Token may not have access to this conversation.''))"
proof -
  have a: "truthy (Some (js ''conv-1''))" and b: "truthy (Some (js ''secret''))"
    by (simp_all add: js_def)
  have c: "\<not> response_ok 500" and d: "\<not> response_ok 403" by (simp_all add: response_ok_def)
  have n: "numberToString 500 = js ''500''" by code_simp
  have e: "NotJson \<noteq> JsonNull" by simp
  show ?thesis
    using a b c n getBotActivities_status_message [OF a b c e]
      getBotActivities_status_message [OF a b d e]
    by (simp add: js_def)
qed

text \<open>
  Claim C5 as stated fails for the exact word: the message for status 401 does not
  contain \<open>unauthorized\<close>, it contains \<open>Unauthorized\<close>.
\<close>

theorem getBotActivities_401_counterexample:
  "getBotActivities (Some (js ''conv-1'')) (Some (js ''secret'')) (Resolved 401 NotJson) =
     Inl (Error (js ''Unauthorized: Invalid Bearer Token. Please check your token.'')) \<and>
   \<not> includesStr (js ''Unauthorized: Invalid Bearer Token. Please check your token.'')
                  (js ''unauthorized'')"
  by code_simp

subsection \<open>Frames of the poll steps\<close>

lemma deliverLatest_frame:
  "deliverLatest pr m s = (s', r) \<Longrightarrow>
     isActiveRef s' = isActiveRef s \<and> isPolling s' = isPolling s \<and>
     pollingIntervalRef s' = pollingIntervalRef s \<and> scheduled s' = scheduled s \<and>
     inFlight s' = inFlight s \<and> nextHandle s' = nextHandle s \<and> error s' = error s"
  by (auto simp: deliverLatest_def Let_def split: if_splits option.splits)

lemma deliverLatest_calls:
  "calls (fst (deliverLatest pr m s)) =
     calls s @ (if isNewMessage m s \<and> onBotMessage pr \<noteq> None
                then [(bm_text m, activityIdOf m, bm_text m)] else [])"
  by (auto simp: deliverLatest_def Let_def split: option.splits)

lemma deliverLatest_refs:
  "lastActivityIdRef (fst (deliverLatest pr m s)) =
      (if isNewMessage m s then activityIdOf m else lastActivityIdRef s) \<and>
   lastMessageRef (fst (deliverLatest pr m s)) =
      (if isNewMessage m s then bm_text m else lastMessageRef s)"
  by (auto simp: deliverLatest_def Let_def split: option.splits)

lemma pollSettle_frame:
  "isActiveRef (pollSettle P pr out s) = isActiveRef s \<and>
   isPolling (pollSettle P pr out s) = isPolling s \<and>
   pollingIntervalRef (pollSettle P pr out s) = pollingIntervalRef s \<and>
   scheduled (pollSettle P pr out s) = scheduled s \<and>
   inFlight (pollSettle P pr out s) = inFlight s - 1"
proof -
  have d: "isActiveRef s' = isActiveRef s0 \<and> isPolling s' = isPolling s0 \<and>
     pollingIntervalRef s' = pollingIntervalRef s0 \<and> scheduled s' = scheduled s0 \<and>
     inFlight s' = inFlight s0" if "deliverLatest pr m s0 = (s', r)" for m s0 s' r
    using deliverLatest_frame [OF that] by simp
  show ?thesis
    unfolding pollSettle_def Let_def
    by (auto split: sum.splits option.splits prod.splits dest!: d)
qed

lemma pollSettle_calls:
  "\<exists>cs. calls (pollSettle P pr out s) = calls s @ cs \<and> length cs \<le> 1"
proof -
  have d: "\<exists>cs. calls s' = calls s0 @ cs \<and> length cs \<le> 1"
    if "deliverLatest pr m s0 = (s', r)" for m s0 s' r
    using deliverLatest_calls [of pr m s0] that by auto
  show ?thesis
    unfolding pollSettle_def Let_def
    by (auto split: sum.splits option.splits prod.splits dest!: d)
qed

lemma startPolling_wellFormed: "wellFormed s \<Longrightarrow> wellFormed (startPolling pr s)"
  by (simp add: wellFormed_def startPolling_def pollBegin_def Let_def)

lemma stopPolling_wellFormed: "wellFormed s \<Longrightarrow> wellFormed (stopPolling s)"
  by (simp add: wellFormed_def stopPolling_def clearInterval_def Let_def split: option.splits)

lemma pollBegin_wellFormed: "wellFormed s \<Longrightarrow> wellFormed (pollBegin s)"
  by (simp add: wellFormed_def pollBegin_def)

lemma pollSettle_wellFormed: "wellFormed s \<Longrightarrow> wellFormed (pollSettle P pr out s)"
  using pollSettle_frame [of P pr out s] by (simp add: wellFormed_def)

lemma hookStep_wellFormed:
  assumes "wellFormed s" and "hookStep P pr e s = Some s'"
  shows "wellFormed s'"
proof (cases e)
  case StartPolling
  with assms(2) have "s' = startPolling pr s" by simp
  then show ?thesis using startPolling_wellFormed [OF assms(1)] by simp
next
  case StopPolling
  with assms(2) have "s' = stopPolling s" by simp
  then show ?thesis using stopPolling_wellFormed [OF assms(1)] by simp
next
  case IntervalFires
  with assms(2) have "s' = pollBegin s" by (simp split: if_splits)
  then show ?thesis using pollBegin_wellFormed [OF assms(1)] by simp
next
  case (FetchSettles out)
  with assms(2) have "s' = pollSettle P pr out s" by (simp split: if_splits)
  then show ?thesis using pollSettle_wellFormed [OF assms(1)] by simp
qed

lemma hookRun_wellFormed:
  "wellFormed s \<Longrightarrow> hookRun P pr es s = Some s' \<Longrightarrow> wellFormed s'"
proof (induction es arbitrary: s)
  case Nil
  then show ?case by simp
next
  case (Cons e es)
  then show ?case
    by (auto split: option.splits dest: hookStep_wellFormed)
qed

lemma wellFormed_init: "wellFormed initHook"
  by (simp add: wellFormed_def initHook_def)

lemma stopped_run:
  assumes "stopped s" and "StartPolling \<notin> set es" and "hookRun P pr es s = Some s'"
  shows "stopped s' \<and> IntervalFires \<notin> set es \<and>
         (\<exists>cs. calls s' = calls s @ cs \<and> length cs + inFlight s' \<le> inFlight s)"
  using assms
proof (induction es arbitrary: s)
  case Nil
  then show ?case by simp
next
  case (Cons e es)
  from Cons.prems(3) obtain s1 where step: "hookStep P pr e s = Some s1"
    and rest: "hookRun P pr es s1 = Some s'"
    by (auto split: option.splits)
  have noStart: "StartPolling \<notin> set es" and e_ne: "e \<noteq> StartPolling"
    using Cons.prems(2) by auto
  have s1: "stopped s1 \<and> e \<noteq> IntervalFires \<and>
            (\<exists>cs. calls s1 = calls s @ cs \<and> length cs + inFlight s1 \<le> inFlight s)"
  proof (cases e)
    case StartPolling
    with e_ne show ?thesis by simp
  next
    case StopPolling
    with step Cons.prems(1) show ?thesis
      by (auto simp: stopped_def stopPolling_def Let_def)
  next
    case IntervalFires
    with step Cons.prems(1) show ?thesis by (simp add: stopped_def)
  next
    case (FetchSettles out)
    with step have pos: "inFlight s \<noteq> 0" and eq: "s1 = pollSettle P pr out s"
      by (auto split: if_splits)
    from pollSettle_calls [of P pr out s] obtain cs where
      cs: "calls (pollSettle P pr out s) = calls s @ cs" "length cs \<le> 1" by blast
    have "length cs + inFlight s1 \<le> inFlight s"
      using cs(2) pos eq pollSettle_frame [of P pr out s] by simp
    with cs(1) eq Cons.prems(1) pollSettle_frame [of P pr out s] FetchSettles
    show ?thesis by (auto simp: stopped_def)
  qed
  from Cons.IH [OF _ noStart rest] s1 obtain cs2 where
    ih: "stopped s'" "IntervalFires \<notin> set es" "calls s' = calls s1 @ cs2"
        "length cs2 + inFlight s' \<le> inFlight s1" by blast
  from s1 obtain cs1 where c1: "calls s1 = calls s @ cs1" "length cs1 + inFlight s1 \<le> inFlight s"
    by blast
  have "calls s' = calls s @ (cs1 @ cs2)" using ih(3) c1(1) by simp
  moreover have "length (cs1 @ cs2) + inFlight s' \<le> inFlight s" using ih(4) c1(2) by simp
  ultimately show ?case using ih(1,2) s1 by auto
qed

lemma stopPolling_stopped: "wellFormed s \<Longrightarrow> stopped (stopPolling s)"
  by (auto simp: wellFormed_def stopped_def stopPolling_def clearInterval_def Let_def
           split: option.splits)

lemma stopPolling_frame:
  "calls (stopPolling s) = calls s \<and> inFlight (stopPolling s) = inFlight s \<and>
   lastActivityIdRef (stopPolling s) = lastActivityIdRef s \<and>
   lastMessageRef (stopPolling s) = lastMessageRef s \<and> error (stopPolling s) = error s"
  by (simp add: stopPolling_def clearInterval_def Let_def split: option.splits)

lemma pollSettle_good_calls:
  assumes "truthy (conversationId pr)" and "truthy (bearerToken pr)"
      and "getLatestBotMessage P (Some d) = Inr (Some m)"
  shows "calls (pollSettle P pr (Resolved 200 (JsonObject d)) s) =
           calls (fst (deliverLatest pr m (s\<lparr> inFlight := inFlight s - 1 \<rparr>)))"
proof -
  have "getBotActivities (conversationId pr) (bearerToken pr) (Resolved 200 (JsonObject d)) = Inr d"
    using assms(1,2) by (simp add: getBotActivities_def response_ok_def)
  then show ?thesis
    using assms(3)
    by (simp add: pollSettle_def Let_def split: prod.splits option.splits)
qed

subsection \<open>Claims about the polling hook\<close>

text \<open>
  Claim C2. In the delivery step, the callback is invoked exactly when the message is
  new, that is when its id (its text when the id is absent or empty) differs from
  \<open>lastActivityIdRef\<close> or its text differs from \<open>lastMessageRef\<close>, and a callback is
  present; at the moment of the call both refs already hold the new values; the text of
  a selected message is the trimmed text of its activity; and a second delivery step
  with the same id and text invokes nothing.
\<close>

theorem deliverLatest_dedup:
  "calls (fst (deliverLatest pr m s)) =
     calls s @ (if (activityIdOf m \<noteq> lastActivityIdRef s \<or> bm_text m \<noteq> lastMessageRef s)
                   \<and> onBotMessage pr \<noteq> None
                then [(bm_text m, activityIdOf m, bm_text m)] else []) \<and>
   activityIdOf m = (case bm_id m of None \<Rightarrow> bm_text m
                     | Some i \<Rightarrow> if i = [] then bm_text m else i) \<and>
   bm_text (toBotMessage a) = (case act_text a of None \<Rightarrow> [] | Some t \<Rightarrow> trim t) \<and>
   (bm_id m' = bm_id m \<and> bm_text m' = bm_text m \<longrightarrow>
      calls (fst (deliverLatest pr m' (fst (deliverLatest pr m s)))) =
      calls (fst (deliverLatest pr m s)))"
proof -
  have one: "calls (fst (deliverLatest pr m s)) =
     calls s @ (if (activityIdOf m \<noteq> lastActivityIdRef s \<or> bm_text m \<noteq> lastMessageRef s)
                   \<and> onBotMessage pr \<noteq> None
                then [(bm_text m, activityIdOf m, bm_text m)] else [])"
    using deliverLatest_calls [of pr m s] by (simp add: isNewMessage_def)
  have two: "activityIdOf m = (case bm_id m of None \<Rightarrow> bm_text m
                     | Some i \<Rightarrow> if i = [] then bm_text m else i)"
    by (simp add: activityIdOf_def split: option.splits)
  have three: "bm_text (toBotMessage a) = (case act_text a of None \<Rightarrow> [] | Some t \<Rightarrow> trim t)"
    by (simp add: toBotMessage_def trim_def split: option.splits)
  have four: "calls (fst (deliverLatest pr m' (fst (deliverLatest pr m s)))) =
      calls (fst (deliverLatest pr m s))" if same: "bm_id m' = bm_id m \<and> bm_text m' = bm_text m"
  proof -
    let ?s1 = "fst (deliverLatest pr m s)"
    have ids: "activityIdOf m' = activityIdOf m" using same by (simp add: activityIdOf_def)
    have "\<not> isNewMessage m' ?s1"
      using deliverLatest_refs [of pr m s] ids same
      by (auto simp: isNewMessage_def split: if_splits)
    then show ?thesis using deliverLatest_calls [of pr m' ?s1] by simp
  qed
  from one two three four show ?thesis by blast
qed

theorem deliverLatest_dedup_witness:
  "calls (fst (deliverLatest sampleProps (toBotMessage (hd tieLog)) initHook)) =
     [(js ''First'', js ''A1'', js ''First'')] \<and>
   calls (fst (deliverLatest sampleProps (toBotMessage (hd tieLog))
             (fst (deliverLatest sampleProps (toBotMessage (hd tieLog)) initHook)))) =
     [(js ''First'', js ''A1'', js ''First'')]"
proof -
  have first: "calls (fst (deliverLatest sampleProps (toBotMessage (hd tieLog)) initHook)) =
     [(js ''First'', js ''A1'', js ''First'')]" by code_simp
  have same: "bm_id (toBotMessage (hd tieLog)) = bm_id (toBotMessage (hd tieLog)) \<and>
     bm_text (toBotMessage (hd tieLog)) = bm_text (toBotMessage (hd tieLog))" by simp
  show ?thesis
    using first same
      deliverLatest_dedup [of sampleProps "toBotMessage (hd tieLog)" initHook _
                              "toBotMessage (hd tieLog)"]
    by simp
qed

text \<open>
  Claim C4, as the code has it. In a state the hook has reached, \<open>stopPolling\<close> leaves
  no interval scheduled; as long as polling is not started again, no interval fires and
  the callback is invoked at most once for each fetch that was waiting when
  \<open>stopPolling\<close> was called, and not at all when none was.
\<close>

theorem stopPolling_bounds_later_callbacks:
  assumes reach: "hookRun P pr before initHook = Some s"
      and noStart: "StartPolling \<notin> set after"
      and run: "hookRun P pr (StopPolling # after) s = Some s'"
  shows "scheduled (stopPolling s) = [] \<and> scheduled s' = [] \<and> IntervalFires \<notin> set after \<and>
         (\<exists>cs. calls s' = calls s @ cs \<and> length cs \<le> inFlight s) \<and>
         (inFlight s = 0 \<longrightarrow> calls s' = calls s)"
proof -
  have wf: "wellFormed s" using hookRun_wellFormed [OF wellFormed_init reach] .
  have st: "stopped (stopPolling s)" using stopPolling_stopped [OF wf] .
  from run have rest: "hookRun P pr after (stopPolling s) = Some s'" by simp
  from stopped_run [OF st noStart rest] obtain cs where
    r: "stopped s'" "IntervalFires \<notin> set after" "calls s' = calls (stopPolling s) @ cs"
       "length cs + inFlight s' \<le> inFlight (stopPolling s)" by blast
  have c: "calls s' = calls s @ cs" and l: "length cs \<le> inFlight s"
    using r(3,4) stopPolling_frame [of s] by simp_all
  from c l have "inFlight s = 0 \<longrightarrow> calls s' = calls s" by auto
  with c l r(1,2) st show ?thesis unfolding stopped_def by blast
qed

theorem stopPolling_bounds_later_callbacks_witness:
  "\<exists>s s'. hookRun refPlatform sampleProps [StartPolling] initHook = Some s \<and>
      hookRun refPlatform sampleProps
        [StopPolling, FetchSettles (Resolved 200 (JsonObject (dataOf tieLog)))] s = Some s' \<and>
      inFlight s = 1 \<and> scheduled s' = [] \<and>
      (\<exists>cs. calls s' = calls s @ cs \<and> length cs \<le> inFlight s)"
proof -
  let ?s = "startPolling sampleProps initHook"
  let ?s' = "pollSettle refPlatform sampleProps (Resolved 200 (JsonObject (dataOf tieLog))) (stopPolling ?s)"
  have a: "hookRun refPlatform sampleProps [StartPolling] initHook = Some ?s" by simp
  have b: "StartPolling \<notin> set [FetchSettles (Resolved 200 (JsonObject (dataOf tieLog)))]" by simp
  have n: "inFlight ?s = 1" by code_simp
  have "inFlight (stopPolling ?s) = 1" by code_simp
  then have c: "hookRun refPlatform sampleProps
        [StopPolling, FetchSettles (Resolved 200 (JsonObject (dataOf tieLog)))] ?s = Some ?s'" by simp
  from stopPolling_bounds_later_callbacks [OF a b c]
  have "scheduled ?s' = [] \<and> (\<exists>cs. calls ?s' = calls ?s @ cs \<and> length cs \<le> inFlight ?s)"
    by blast
  with a c n show ?thesis by blast
qed

text \<open>
  Claim C4 as stated fails for a fetch that is waiting when \<open>stopPolling\<close> is
  called: nothing has been delivered at the stop, and the fetch that settles afterwards
  invokes the callback with \<open>First\<close>.
\<close>

theorem stopPolling_in_flight_counterexample:
  "map_option calls (hookRun refPlatform sampleProps [StartPolling, StopPolling] initHook) = Some [] \<and>
   map_option (map fst \<circ> calls)
     (hookRun refPlatform sampleProps
        [StartPolling, StopPolling, FetchSettles (Resolved 200 (JsonObject (dataOf tieLog)))] initHook) =
     Some [js ''First'']"
  by code_simp

text \<open>
  Claim C6. When the fetch of a poll fails (the request is rejected, or the status is
  not a success), the poll only records the error's message: both dedup refs, the calls
  made, the scheduled interval, its handle and the polling flags are as before. While an
  interval is scheduled, its next firing starts a new poll: one more fetch is in
  flight, refs and calls still as before the failure, and when that fetch succeeds
  with a bot message that is new, the callback is invoked with it.
\<close>

theorem pollSettle_fetch_failure:
  assumes "fetchFails outcome"
  shows "(\<exists>err. getBotActivities (conversationId pr) (bearerToken pr) outcome = Inl err \<and>
            pollSettle P pr outcome s =
              s\<lparr> inFlight := inFlight s - 1, error := Some (errMessage err) \<rparr>) \<and>
         lastActivityIdRef (pollSettle P pr outcome s) = lastActivityIdRef s \<and>
         lastMessageRef (pollSettle P pr outcome s) = lastMessageRef s \<and>
         calls (pollSettle P pr outcome s) = calls s \<and>
         scheduled (pollSettle P pr outcome s) = scheduled s \<and>
         pollingIntervalRef (pollSettle P pr outcome s) = pollingIntervalRef s \<and>
         isActiveRef (pollSettle P pr outcome s) = isActiveRef s \<and>
         isPolling (pollSettle P pr outcome s) = isPolling s \<and>
         (scheduled s \<noteq> [] \<longrightarrow>
            hookStep P pr IntervalFires (pollSettle P pr outcome s) =
              Some (pollBegin (pollSettle P pr outcome s))) \<and>
         (scheduled s \<noteq> [] \<longrightarrow>
            (\<exists>s'. hookStep P pr IntervalFires (pollSettle P pr outcome s) = Some s' \<and>
                  inFlight s' = inFlight (pollSettle P pr outcome s) + 1 \<and>
                  lastActivityIdRef s' = lastActivityIdRef s \<and>
                  lastMessageRef s' = lastMessageRef s \<and> calls s' = calls s \<and>
                  scheduled s' = scheduled s)) \<and>
         (scheduled s \<noteq> [] \<and> truthy (conversationId pr) \<and> truthy (bearerToken pr) \<and>
          onBotMessage pr \<noteq> None \<and> getLatestBotMessage P (Some d) = Inr (Some m) \<and>
          isNewMessage m s \<longrightarrow>
            map_option calls
              (hookRun P pr [IntervalFires, FetchSettles (Resolved 200 (JsonObject d))]
                 (pollSettle P pr outcome s)) =
            Some (calls s @ [(bm_text m, activityIdOf m, bm_text m)]))"
proof -
  let ?s1 = "pollSettle P pr outcome s"
  have "\<exists>err. getBotActivities (conversationId pr) (bearerToken pr) outcome = Inl err"
    using assms
    by (cases outcome)
       (simp_all add: fetchFails_def getBotActivities_def split: responseBody.splits)
  then obtain err where
    err: "getBotActivities (conversationId pr) (bearerToken pr) outcome = Inl err" by blast
  then have eq: "?s1 = s\<lparr> inFlight := inFlight s - 1, error := Some (errMessage err) \<rparr>"
    by (simp add: pollSettle_def Let_def)
  have frame: "(\<exists>err. getBotActivities (conversationId pr) (bearerToken pr) outcome = Inl err \<and>
            ?s1 = s\<lparr> inFlight := inFlight s - 1, error := Some (errMessage err) \<rparr>) \<and>
         lastActivityIdRef ?s1 = lastActivityIdRef s \<and> lastMessageRef ?s1 = lastMessageRef s \<and>
         calls ?s1 = calls s \<and> scheduled ?s1 = scheduled s \<and>
         pollingIntervalRef ?s1 = pollingIntervalRef s \<and> isActiveRef ?s1 = isActiveRef s \<and>
         isPolling ?s1 = isPolling s"
    using err eq by simp
  have tick: "hookStep P pr IntervalFires ?s1 = Some (pollBegin ?s1)" if "scheduled s \<noteq> []"
    using that eq by simp
  have begun: "inFlight (pollBegin ?s1) = inFlight ?s1 + 1 \<and>
               lastActivityIdRef (pollBegin ?s1) = lastActivityIdRef s \<and>
               lastMessageRef (pollBegin ?s1) = lastMessageRef s \<and>
               calls (pollBegin ?s1) = calls s \<and> scheduled (pollBegin ?s1) = scheduled s"
    using eq by (simp add: pollBegin_def)
  have retry: "\<exists>s'. hookStep P pr IntervalFires ?s1 = Some s' \<and>
                  inFlight s' = inFlight ?s1 + 1 \<and> lastActivityIdRef s' = lastActivityIdRef s \<and>
                  lastMessageRef s' = lastMessageRef s \<and> calls s' = calls s \<and>
                  scheduled s' = scheduled s" if "scheduled s \<noteq> []"
    using tick [OF that] begun by blast
  have later: "map_option calls
              (hookRun P pr [IntervalFires, FetchSettles (Resolved 200 (JsonObject d))] ?s1) =
            Some (calls s @ [(bm_text m, activityIdOf m, bm_text m)])"
    if h: "scheduled s \<noteq> [] \<and> truthy (conversationId pr) \<and> truthy (bearerToken pr) \<and>
          onBotMessage pr \<noteq> None \<and> getLatestBotMessage P (Some d) = Inr (Some m) \<and>
          isNewMessage m s"
  proof -
    let ?s2 = "pollBegin ?s1"
    let ?s3 = "pollSettle P pr (Resolved 200 (JsonObject d)) ?s2"
    have waiting: "inFlight ?s2 \<noteq> 0" using begun by simp
    have run: "hookRun P pr [IntervalFires, FetchSettles (Resolved 200 (JsonObject d))] ?s1 = Some ?s3"
      using tick h waiting by simp
    let ?s0 = "?s2\<lparr> inFlight := inFlight ?s2 - 1 \<rparr>"
    have new: "isNewMessage m ?s0" using h begun by (simp add: isNewMessage_def)
    have "calls ?s3 = calls (fst (deliverLatest pr m ?s0))"
      using h by (intro pollSettle_good_calls) simp_all
    also have "\<dots> = calls ?s0 @ [(bm_text m, activityIdOf m, bm_text m)]"
      using new h deliverLatest_calls [of pr m ?s0] by simp
    also have "calls ?s0 = calls s" using begun by simp
    finally show ?thesis using run by simp
  qed
  from frame tick retry later show ?thesis by blast
qed

theorem pollSettle_fetch_failure_witness:
  "fetchFails (Resolved 401 NotJson) \<and>
   error (pollSettle refPlatform sampleProps (Resolved 401 NotJson) (startPolling sampleProps initHook)) =
     Some (js ''Unauthorized: Invalid Bearer Token. Please check your token.'') \<and>
   scheduled (pollSettle refPlatform sampleProps (Resolved 401 NotJson) (startPolling sampleProps initHook)) = [1] \<and>
   hookStep refPlatform sampleProps IntervalFires
      (pollSettle refPlatform sampleProps (Resolved 401 NotJson) (startPolling sampleProps initHook)) \<noteq> None \<and>
   inFlight (pollBegin
      (pollSettle refPlatform sampleProps (Resolved 401 NotJson) (startPolling sampleProps initHook))) = 1 \<and>
   map_option (map fst \<circ> calls)
     (hookRun refPlatform sampleProps
        [IntervalFires, FetchSettles (Resolved 200 (JsonObject (dataOf tieLog)))]
        (pollSettle refPlatform sampleProps (Resolved 401 NotJson) (startPolling sampleProps initHook))) =
     Some [js ''First'']"
proof -
  let ?s = "startPolling sampleProps initHook"
  let ?m = "toBotMessage (hd tieLog)"
  have f: "fetchFails (Resolved 401 NotJson)" by (simp add: fetchFails_def response_ok_def)
  have e: "error (pollSettle refPlatform sampleProps (Resolved 401 NotJson) ?s) =
     Some (js ''Unauthorized: Invalid Bearer Token. Please check your token.'')" by code_simp
  have sch: "scheduled ?s = [1]" by code_simp
  have fl: "inFlight ?s = 1" by code_simp
  have cs: "calls ?s = []" by code_simp
  have cred: "truthy (conversationId sampleProps)" "truthy (bearerToken sampleProps)"
             "onBotMessage sampleProps \<noteq> None"
    by (simp_all add: sampleProps_def js_def)
  have latest: "getLatestBotMessage refPlatform (Some (dataOf tieLog)) = Inr (Some ?m)"
    by code_simp
  have new: "isNewMessage ?m ?s" by code_simp
  have first_text: "bm_text ?m = js ''First''" by code_simp
  note inst = pollSettle_fetch_failure
      [OF f, of sampleProps refPlatform ?s "dataOf tieLog" ?m]
  have prem: "scheduled ?s \<noteq> [] \<and> truthy (conversationId sampleProps) \<and>
          truthy (bearerToken sampleProps) \<and> onBotMessage sampleProps \<noteq> None \<and>
          getLatestBotMessage refPlatform (Some (dataOf tieLog)) = Inr (Some ?m) \<and>
          isNewMessage ?m ?s"
    using sch cred latest new by simp
  have run: "map_option calls
     (hookRun refPlatform sampleProps
        [IntervalFires, FetchSettles (Resolved 200 (JsonObject (dataOf tieLog)))]
        (pollSettle refPlatform sampleProps (Resolved 401 NotJson) ?s)) =
     Some (calls ?s @ [(bm_text ?m, activityIdOf ?m, bm_text ?m)])"
    using inst prem by blast
  have fst_run: "map_option (map fst \<circ> calls)
     (hookRun refPlatform sampleProps
        [IntervalFires, FetchSettles (Resolved 200 (JsonObject (dataOf tieLog)))]
        (pollSettle refPlatform sampleProps (Resolved 401 NotJson) ?s)) = Some [js ''First'']"
    using run cs first_text by (auto simp del: hookRun.simps)
  have settled: "inFlight (pollSettle refPlatform sampleProps (Resolved 401 NotJson) ?s) = 0"
    using pollSettle_frame [of refPlatform sampleProps "Resolved 401 NotJson" ?s] fl by simp
  have inflight: "inFlight (pollBegin (pollSettle refPlatform sampleProps (Resolved 401 NotJson) ?s)) = 1"
    using settled by (simp add: pollBegin_def)
  have sch2: "scheduled (pollSettle refPlatform sampleProps (Resolved 401 NotJson) ?s) = [1]"
    using inst sch by simp
  have tick: "hookStep refPlatform sampleProps IntervalFires
      (pollSettle refPlatform sampleProps (Resolved 401 NotJson) ?s) \<noteq> None"
    using sch2 by simp
  show ?thesis
    by (intro conjI f e sch2 tick inflight fst_run)
qed

text \<open>
  Claim C8. \<open>stopPolling\<close> on a hook that was never started changes nothing; calling
  it twice is the same as calling it once; it never changes the dedup refs or the
  error; and in every reached state with no interval handle it changes nothing at all.
\<close>

theorem stopPolling_noop:
  "stopPolling initHook = initHook \<and> stopPolling (stopPolling s) = stopPolling s \<and>
   lastActivityIdRef (stopPolling s) = lastActivityIdRef s \<and>
   lastMessageRef (stopPolling s) = lastMessageRef s \<and> error (stopPolling s) = error s \<and>
   (hookRun P pr es initHook = Some s \<and> pollingIntervalRef s = None \<longrightarrow> stopPolling s = s)"
proof -
  have a: "stopPolling initHook = initHook" by (simp add: stopPolling_def initHook_def)
  have b: "stopPolling (stopPolling s) = stopPolling s"
    by (simp add: stopPolling_def clearInterval_def Let_def split: option.splits)
  have c: "stopPolling s = s" if "hookRun P pr es initHook = Some s \<and> pollingIntervalRef s = None"
  proof -
    have "wellFormed s" using hookRun_wellFormed [OF wellFormed_init] that by blast
    with that show ?thesis by (simp add: wellFormed_def stopPolling_def)
  qed
  from a b c stopPolling_frame [of s] show ?thesis by blast
qed

theorem stopPolling_noop_witness:
  "hookRun refPlatform sampleProps [StartPolling, StopPolling] initHook =
     Some (stopPolling (startPolling sampleProps initHook)) \<and>
   pollingIntervalRef (stopPolling (startPolling sampleProps initHook)) = None \<and>
   stopPolling (stopPolling (startPolling sampleProps initHook)) =
     stopPolling (startPolling sampleProps initHook)"
proof -
  have r: "hookRun refPlatform sampleProps [StartPolling, StopPolling] initHook =
     Some (stopPolling (startPolling sampleProps initHook))" by simp
  have n: "pollingIntervalRef (stopPolling (startPolling sampleProps initHook)) = None"
    by (simp add: stopPolling_def split: option.splits)
  show ?thesis
    using r n stopPolling_noop [of "stopPolling (startPolling sampleProps initHook)"
                                  refPlatform sampleProps "[StartPolling, StopPolling]"]
    by blast
qed

section \<open>Properties of the detector\<close>

lemmas detector_defs = checkAndProcessStableMessage_def setStabilizationTimeout_def
  clearTimeout_def STABILIZATION_DELAY_def MIN_STABILIZATION_COUNT_def

lemma growth_step:
  assumes "\<not> (isBotTyping pg \<and> \<not> immediate)" and "botMessages pg \<noteq> []"
      and "last (botMessages pg) \<noteq> lastSeenText s"
      and "length (last (botMessages pg)) > length (lastSeenText s)"
  shows "checkAndProcessStableMessage hasCallback immediate pg now s =
           s\<lparr> lastSeenText := last (botMessages pg), stabilizationCount := 0,
              timers := (case messageStabilizationTimeout s of None \<Rightarrow> timers s
                         | Some h \<Rightarrow> filter (\<lambda>t. fst t \<noteq> h) (timers s))
                        @ [(nextTimer s, now + 800)],
              messageStabilizationTimeout := Some (nextTimer s),
              nextTimer := nextTimer s + 1 \<rparr>"
  using assms by (auto simp: detector_defs Let_def split: option.splits)

lemma check_delivered:
  "delivered (checkAndProcessStableMessage hasCallback immediate pg now s) = delivered s \<or>
   (delivered (checkAndProcessStableMessage hasCallback immediate pg now s) =
      delivered s @ [cleanText (last (botMessages pg))] \<and>
    length (cleanText (last (botMessages pg))) > 5 \<and>
    lastProcessedText (checkAndProcessStableMessage hasCallback immediate pg now s) =
      last (botMessages pg))"
  by (auto simp: detector_defs Let_def split: option.splits)

lemma clean_example: "cleanText greatChoice = greatChoiceClean"
  by (simp add: cleanText_def greatChoice_def greatChoiceClean_def js_def codePoint_def
        isWhiteSpace_def trim_def)











subsection \<open>Claims about the detector\<close>




text \<open>
  Claim C7. Cleaning maps \<open>Great choice! \<close>, the emoji U+1F389, \<open> Let's proceed\<close> to
  \<open>Great choice! Let's proceed\<close>. A check delivers nothing, or it delivers the cleaned
  latest text, and then the cleaned text is longer than 5 code units. Observed once
  and left until the timeout runs, the text with the emoji is delivered cleaned.
\<close>

theorem cleanText_delivery:
  "cleanText greatChoice = greatChoiceClean \<and>
   (delivered (checkAndProcessStableMessage hasCallback immediate pg now s) = delivered s \<or>
    (delivered (checkAndProcessStableMessage hasCallback immediate pg now s) =
       delivered s @ [cleanText (last (botMessages pg))] \<and>
     length (cleanText (last (botMessages pg))) > 5)) \<and>
   map_option delivered
     (detectorRun True [Observe 0 (quietPage greatChoice), TimeoutFires 800 (quietPage greatChoice)]
        initDetector) = Some [greatChoiceClean]"
proof -
  have len: "length greatChoice = 30" and ne: "greatChoice \<noteq> []"
    and lenc: "length greatChoiceClean = 27" and nec: "greatChoiceClean \<noteq> []"
    by (simp_all add: greatChoice_def greatChoiceClean_def js_def)
  define s1 where "s1 = initDetector\<lparr> lastSeenText := greatChoice,
      timers := [(1, 800)], messageStabilizationTimeout := Some 1, nextTimer := 2 \<rparr>"
  have step1: "detectorStep True (Observe 0 (quietPage greatChoice)) initDetector = Some s1"
    by (simp add: s1_def initDetector_def quietPage_def growth_step len ne)
  have step2: "map_option delivered (detectorStep True (TimeoutFires 800 (quietPage greatChoice)) s1)
                 = Some [greatChoiceClean]"
    by (simp add: s1_def initDetector_def quietPage_def detector_defs Let_def len ne
          clean_example lenc nec)
  then obtain s2 where
    s2: "detectorStep True (TimeoutFires 800 (quietPage greatChoice)) s1 = Some s2"
        "delivered s2 = [greatChoiceClean]" by blast
  have run: "map_option delivered
     (detectorRun True [Observe 0 (quietPage greatChoice), TimeoutFires 800 (quietPage greatChoice)]
        initDetector) = Some [greatChoiceClean]"
    by (simp add: step1 s2 del: detectorStep.simps)
  from clean_example check_delivered [of hasCallback immediate pg now s] run
  show ?thesis by blast
qed

theorem cleanText_delivery_witness:
  "delivered (checkAndProcessStableMessage True True (quietPage greatChoice) 800
       (initDetector\<lparr> lastSeenText := greatChoice \<rparr>)) = [greatChoiceClean] \<and>
   length greatChoiceClean = 27 \<and>
   delivered (checkAndProcessStableMessage True True (quietPage (js ''Hi, you'')) 800
       (initDetector\<lparr> lastSeenText := js ''Hi, you'' \<rparr>)) = [js ''Hi, you''] \<and>
   delivered (checkAndProcessStableMessage True True
       (quietPage (js ''Hello'' @ [0xD83C, 0xDF89, 0xD83C, 0xDF89])) 800
       (initDetector\<lparr> lastSeenText := js ''Hello'' @ [0xD83C, 0xDF89, 0xD83C, 0xDF89] \<rparr>)) = []"
proof -
  have a: "delivered (initDetector\<lparr> lastSeenText := greatChoice \<rparr>) = []"
    by (simp add: initDetector_def)
  have l: "length greatChoice = 30" "greatChoice \<noteq> []"
    by (simp_all add: greatChoice_def js_def)
  have lc: "length greatChoiceClean = 27"
    by (simp add: greatChoiceClean_def js_def)
  have b: "delivered (checkAndProcessStableMessage True True (quietPage greatChoice) 800
       (initDetector\<lparr> lastSeenText := greatChoice \<rparr>)) \<noteq> []"
    by (simp add: initDetector_def quietPage_def detector_defs Let_def l clean_example lc
          greatChoiceClean_def js_def)
  have c: "delivered (checkAndProcessStableMessage True True (quietPage (js ''Hi, you'')) 800
       (initDetector\<lparr> lastSeenText := js ''Hi, you'' \<rparr>)) = [js ''Hi, you'']"
    by (simp add: initDetector_def quietPage_def detector_defs Let_def cleanText_def js_def
          isWhiteSpace_def trim_def)
  have d: "delivered (checkAndProcessStableMessage True True
       (quietPage (js ''Hello'' @ [0xD83C, 0xDF89, 0xD83C, 0xDF89])) 800
       (initDetector\<lparr> lastSeenText := js ''Hello'' @ [0xD83C, 0xDF89, 0xD83C, 0xDF89] \<rparr>)) = []"
    by (simp add: initDetector_def quietPage_def detector_defs Let_def cleanText_def js_def
          isWhiteSpace_def trim_def codePoint_def)
  show ?thesis
    using a b c d lc
      cleanText_delivery [of True True "quietPage greatChoice" 800
                             "initDetector\<lparr> lastSeenText := greatChoice \<rparr>"]
    by (simp add: quietPage_def)
qed

text \<open>
  Claim C10. When the latest extracted text differs from \<open>lastSeenText\<close> and is not
  longer, the check returns the state as it was: \<open>lastSeenText\<close>, the counter, the
  timeout and its handle, the last processed text and time and the deliveries are all
  unchanged.
\<close>

theorem shorter_replacement_ignored:
  assumes "botMessages pg \<noteq> []"
      and "last (botMessages pg) \<noteq> lastSeenText s"
      and "length (last (botMessages pg)) \<le> length (lastSeenText s)"
  shows "checkAndProcessStableMessage hasCallback immediate pg now s = s"
  using assms by (simp add: checkAndProcessStableMessage_def Let_def)

theorem shorter_replacement_ignored_witness:
  "botMessages (quietPage (js ''Goodbye now'')) \<noteq> [] \<and>
   last (botMessages (quietPage (js ''Goodbye now''))) \<noteq>
     lastSeenText (initDetector\<lparr> lastSeenText := js ''Hello world'' \<rparr>) \<and>
   length (last (botMessages (quietPage (js ''Goodbye now'')))) \<le>
     length (lastSeenText (initDetector\<lparr> lastSeenText := js ''Hello world'' \<rparr>)) \<and>
   checkAndProcessStableMessage True False (quietPage (js ''Goodbye now'')) 1000
     (initDetector\<lparr> lastSeenText := js ''Hello world'' \<rparr>) =
     initDetector\<lparr> lastSeenText := js ''Hello world'' \<rparr>"
proof -
  have a: "botMessages (quietPage (js ''Goodbye now'')) \<noteq> []" by (simp add: quietPage_def)
  have b: "last (botMessages (quietPage (js ''Goodbye now''))) \<noteq>
     lastSeenText (initDetector\<lparr> lastSeenText := js ''Hello world'' \<rparr>)"
    by (simp add: quietPage_def js_def)
  have c: "length (last (botMessages (quietPage (js ''Goodbye now'')))) \<le>
     length (lastSeenText (initDetector\<lparr> lastSeenText := js ''Hello world'' \<rparr>))"
    by (simp add: quietPage_def js_def)
  show ?thesis
    using a b c shorter_replacement_ignored [OF a b c, of True False 1000] by simp
qed

end
